theory Spec2Isabelle
  imports Complex_Main
begin

section \<open>JavaScript values\<close>

text \<open>
  The values that flow through the annotation code are JSON scalars and what
  JavaScript computes from them. A finite number is a real that is a double;
  the two infinities and \<open>JNaN\<close> are values of their own. A tuple holds
  numbers and strings; \<^verbatim>\<open>null\<close>, booleans and nested values are not modelled.
\<close>

datatype jsval = JUndefined | JNum real | JInfinity | JNegInfinity | JNaN | JStr string

text \<open>
  What the language brings along and the code relies on:
  \<^item> \<open>numStr\<close>, the decimal rendering of a number;
  \<^item> \<open>roundDouble\<close>, the number (a double or an infinity) that IEEE arithmetic
    returns for an exact result that is not a double;
  \<^item> \<open>objectInherits\<close>, the value a plain object inherits under a name
    (\<^verbatim>\<open>constructor\<close>, \<^verbatim>\<open>toString\<close>, ...), if any; \<open>'m\<close> is the type of the
    values read from the chromosome table;
  \<^item> \<open>arrayInherits\<close>, whether an array has a property of a name that is not
    an index (\<^verbatim>\<open>length\<close>, \<^verbatim>\<open>map\<close>, ...).
  They are parameters of the model.
\<close>

record 'm jsenv =
  numStr :: "real \<Rightarrow> string"
  roundDouble :: "real \<Rightarrow> jsval"
  objectInherits :: "string \<Rightarrow> 'm option"
  arrayInherits :: "string \<Rightarrow> bool"

datatype error = TypeError

text \<open>An object is a finite map from property names to values.\<close>

type_synonym jsobject = "string \<rightharpoonup> jsval"

text \<open>\<^verbatim>\<open>obj.k\<close>: a missing property reads as \<^verbatim>\<open>undefined\<close>.\<close>

definition getProp :: "jsobject \<Rightarrow> string \<Rightarrow> jsval" where
  "getProp obj k = (case obj k of None \<Rightarrow> JUndefined | Some v \<Rightarrow> v)"

text \<open>\<^verbatim>\<open>'k' in obj\<close>: true also when the property holds \<^verbatim>\<open>undefined\<close>.\<close>

definition js_in :: "string \<Rightarrow> jsobject \<Rightarrow> bool" where
  "js_in k obj = (obj k \<noteq> None)"

text \<open>\<^verbatim>\<open>ra[k]\<close> on an array: reading past the end gives \<^verbatim>\<open>undefined\<close>.\<close>

definition js_index :: "jsval list \<Rightarrow> nat \<Rightarrow> jsval" where
  "js_index ra k = (if k < length ra then ra ! k else JUndefined)"

text \<open>\<^verbatim>\<open>ToString\<close>.\<close>

fun ToString :: "'m jsenv \<Rightarrow> jsval \<Rightarrow> string" where
  "ToString js JUndefined = ''undefined''"
| "ToString js (JNum r) = numStr js r"
| "ToString js JInfinity = ''Infinity''"
| "ToString js JNegInfinity = ''-Infinity''"
| "ToString js JNaN = ''NaN''"
| "ToString js (JStr s) = s"

fun is_JStr :: "jsval \<Rightarrow> bool" where
  "is_JStr (JStr s) = True"
| "is_JStr v = False"

text \<open>
  The result of an arithmetic operation whose exact value is \<open>x\<close>. A multiple
  of 1/1024 of magnitude at most \<open>2 ^ 43\<close> is a double, so it is the result;
  any other value is rounded, or overflows, as \<open>roundDouble\<close> says.
\<close>

definition toDouble :: "'m jsenv \<Rightarrow> real \<Rightarrow> jsval" where
  "toDouble js x =
     (if of_int \<lfloor>x * 1024\<rfloor> = x * 1024 \<and> \<bar>x\<bar> \<le> 2 ^ 43 then JNum x
      else roundDouble js x)"

text \<open>
  The \<^verbatim>\<open>+\<close> operator: concatenation as soon as one operand is a string,
  addition of doubles otherwise, where \<^verbatim>\<open>undefined\<close>, \<^verbatim>\<open>NaN\<close> and the sum of
  opposite infinities give \<^verbatim>\<open>NaN\<close>.
\<close>

fun num_add :: "'m jsenv \<Rightarrow> jsval \<Rightarrow> jsval \<Rightarrow> jsval" where
  "num_add js (JNum x) (JNum y) = toDouble js (x + y)"
| "num_add js JInfinity (JNum y) = JInfinity"
| "num_add js (JNum x) JInfinity = JInfinity"
| "num_add js JInfinity JInfinity = JInfinity"
| "num_add js JNegInfinity (JNum y) = JNegInfinity"
| "num_add js (JNum x) JNegInfinity = JNegInfinity"
| "num_add js JNegInfinity JNegInfinity = JNegInfinity"
| "num_add js a b = JNaN"

definition js_add :: "'m jsenv \<Rightarrow> jsval \<Rightarrow> jsval \<Rightarrow> jsval" where
  "js_add js a b =
     (if is_JStr a \<or> is_JStr b then JStr (ToString js a @ ToString js b)
      else num_add js a b)"

text \<open>
  \<^verbatim>\<open>v / 2\<close> and \<^verbatim>\<open>Math.round(v)\<close> for a number \<open>v\<close>: the rounded value is
  the nearest integer, a half going up, which is a double.
\<close>

fun js_half :: "'m jsenv \<Rightarrow> jsval \<Rightarrow> jsval" where
  "js_half js (JNum x) = toDouble js (x / 2)"
| "js_half js JInfinity = JInfinity"
| "js_half js JNegInfinity = JNegInfinity"
| "js_half js v = JNaN"

fun js_round :: "jsval \<Rightarrow> jsval" where
  "js_round (JNum x) = JNum (of_int \<lfloor>x + 1 / 2\<rfloor>)"
| "js_round JInfinity = JInfinity"
| "js_round JNegInfinity = JNegInfinity"
| "js_round v = JNaN"

text \<open>
  \<^verbatim>\<open>Math.round\<close> of a real: the nearest integer, a half going up.
  \<open>initAnnotSettings\<close> applies it to the exact quotient of the chromosome
  height by 100; the rounding of that quotient to a double is not modelled.
\<close>

definition Math_round :: "real \<Rightarrow> int" where
  "Math_round x = \<lfloor>x + 1 / 2\<rfloor>"

text \<open>The decimal digits of an array length or index.\<close>

fun natToString :: "nat \<Rightarrow> string" where
  "natToString n =
     (if n < 10 then [''0123456789'' ! n]
      else natToString (n div 10) @ [''0123456789'' ! (n mod 10)])"

declare natToString.simps [simp del]

section \<open>Data model\<close>

text \<open>
  \<^verbatim>\<open>{chr: ..., annots: [...]}\<close>: a raw group holds value tuples, a processed
  group holds annotation objects.
\<close>

record 'a chrGroup =
  chr :: string
  annots :: "'a list"

type_synonym rawGroup = "jsval list chrGroup"
type_synonym annotGroup = "jsobject chrGroup"

text \<open>\<^verbatim>\<open>rawAnnots\<close>: \<^verbatim>\<open>{keys: [...], annots: [...]}\<close>.\<close>

record rawAnnotSet =
  keys :: "string list"
  rawGroups :: "rawGroup list"

text \<open>An entry of \<^verbatim>\<open>config.annotationTracks\<close>.\<close>

record track =
  color :: jsval
  shape :: jsval

text \<open>An entry of \<^verbatim>\<open>ideo.chromosomesArray\<close>.\<close>

record chromosome =
  name :: string

text \<open>
  \<^verbatim>\<open>ideo.config\<close>. A field that may be \<^verbatim>\<open>undefined\<close> is an option; the
  callback is an opaque value of type \<open>'cb\<close>. \<open>taxid\<close> is an NCBI taxonomy
  identifier, a number, so its property key is a numeral and never a name
  that an object inherits.
\<close>

record 'cb config =
  taxid :: nat
  annotationsPath :: "string option"
  localAnnotationsPath :: "string option"
  annotations :: "rawAnnotSet option"
  annotationHeight :: "real option"
  chrHeight :: real
  annotationTracks :: "track list option"
  numAnnotTracks :: "nat option"
  annotTracksHeight :: "real option"
  barWidth :: "real option"
  annotationsColor :: jsval
  showAnnotTooltip :: "bool option"
  onWillShowAnnotTooltip :: "'cb option"
  heatmaps :: bool

text \<open>
  The ideogram instance (\<^verbatim>\<open>this\<close>). \<open>chromosomes\<close> is the chromosome-model
  table, keyed by taxid and then by chromosome name: the own keys of the two
  objects. \<open>'m\<close> is the type of what the table yields, a chromosome model or
  a value that the table object inherits.
\<close>

record ('m, 'cb) ideo =
  config :: "'cb config"
  chromosomes :: "nat \<rightharpoonup> (string \<rightharpoonup> 'm)"
  chromosomesArray :: "chromosome list"
  ideoAnnots :: "annotGroup list option"
  rawAnnots :: "rawAnnotSet option"
  onLoadAnnotsCallback :: "'cb option"
  onWillShowAnnotTooltipCallback :: "'cb option"

section \<open>processAnnotData\<close>

text \<open>
  \<^verbatim>\<open>for (k = 0; k < keys.length; k++) annot[keys[k]] = ra[k];\<close>
\<close>

fun assignKeys :: "string list \<Rightarrow> nat \<Rightarrow> jsval list \<Rightarrow> jsobject \<Rightarrow> jsobject" where
  "assignKeys [] k ra annot = annot"
| "assignKeys (key # ks) k ra annot = assignKeys ks (Suc k) ra (annot(key \<mapsto> js_index ra k))"

text \<open>
  \<^verbatim>\<open>table[chr]\<close> on the table of a taxid: an own key, or else what the table
  object inherits under that name; \<open>None\<close> is \<^verbatim>\<open>undefined\<close>.
\<close>

definition lookupChr :: "'m jsenv \<Rightarrow> (string \<rightharpoonup> 'm) \<Rightarrow> string \<Rightarrow> 'm option" where
  "lookupChr js table c =
     (case table c of Some chrModel \<Rightarrow> Some chrModel | None \<Rightarrow> objectInherits js c)"

text \<open>
  \<^verbatim>\<open>ideo.config.annotationTracks[annot.trackIndex]\<close>: the entry at a number that
  is an index of the array, or at a string that spells one. A string that
  names another property of the array yields a value with no \<^verbatim>\<open>color\<close> and no
  \<^verbatim>\<open>shape\<close>. Any other key yields \<^verbatim>\<open>undefined\<close>, here \<open>None\<close>.
\<close>

definition trackAt :: "'m jsenv \<Rightarrow> track list \<Rightarrow> jsval \<Rightarrow> track option" where
  "trackAt js tracks v =
     (case v of
        JNum r \<Rightarrow>
          (if r = of_int \<lfloor>r\<rfloor> \<and> 0 \<le> r \<and> nat \<lfloor>r\<rfloor> < length tracks
           then Some (tracks ! nat \<lfloor>r\<rfloor>) else None)
      | JStr s \<Rightarrow>
          (case List.find (\<lambda>n. natToString n = s) [0..<length tracks] of
             Some n \<Rightarrow> Some (tracks ! n)
           | None \<Rightarrow>
               (if arrayInherits js s then Some \<lparr>color = JUndefined, shape = JUndefined\<rparr>
                else None))
      | _ \<Rightarrow> None)"

text \<open>
  The tail of the loop body, from \<^verbatim>\<open>if ('color' in annot)\<close> to the last field
  assignment. It returns the annotation and the value left in the variable
  \<^verbatim>\<open>shape\<close>, which is scoped to the whole function.
\<close>

definition finishAnnot ::
  "string \<Rightarrow> nat \<Rightarrow> jsval \<Rightarrow> real \<Rightarrow> real \<Rightarrow> jsobject \<Rightarrow> jsval \<Rightarrow> jsval \<Rightarrow> jsobject \<times> jsval" where
  "finishAnnot chrName i px startPx stopPx annot color0 shape0 =
     (let color1 = (if js_in ''color'' annot then getProp annot ''color'' else color0);
          shape1 = (if js_in ''shape'' annot then getProp annot ''shape'' else shape0)
      in (annot(''chr'' \<mapsto> JStr chrName,
                ''chrIndex'' \<mapsto> JNum (of_nat i),
                ''px'' \<mapsto> px,
                ''startPx'' \<mapsto> JNum startPx,
                ''stopPx'' \<mapsto> JNum stopPx,
                ''color'' \<mapsto> color1,
                ''shape'' \<mapsto> shape1), shape1))"

text \<open>
  The body of the loop over the rows of one group. \<open>convertBpToPx\<close> is the
  coordinate mapper of the instance, a function into pixel offsets that are
  doubles. Reading
  \<^verbatim>\<open>.color\<close> of a track entry that is \<^verbatim>\<open>undefined\<close> throws.
\<close>

definition processAnnot ::
  "'m jsenv \<Rightarrow> ('m \<Rightarrow> jsval \<Rightarrow> real) \<Rightarrow> ('m, 'cb) ideo \<Rightarrow> 'm \<Rightarrow> string \<Rightarrow> nat \<Rightarrow>
   string list \<Rightarrow> jsval list \<Rightarrow> jsval \<Rightarrow> error + (jsobject \<times> jsval)" where
  "processAnnot js convertBpToPx ideo chrModel chrName i ks ra shape0 =
     (let annot1 = assignKeys ks 0 ra Map.empty;
          annot2 = annot1(''stop'' \<mapsto> js_add js (getProp annot1 ''start'') (getProp annot1 ''length''));
          startPx = convertBpToPx chrModel (getProp annot2 ''start'');
          stopPx = convertBpToPx chrModel (getProp annot2 ''stop'');
          px = js_round (js_half js (num_add js (JNum startPx) (JNum stopPx)));
          color0 = annotationsColor (config ideo)
      in (case annotationTracks (config ideo) of
            Some tracks \<Rightarrow>
              (let annot3 = annot2(''trackIndex'' \<mapsto> js_index ra 3)
               in (case trackAt js tracks (getProp annot3 ''trackIndex'') of
                     None \<Rightarrow> Inl TypeError
                   | Some annotTrack \<Rightarrow>
                       Inr (finishAnnot chrName i px startPx stopPx annot3
                              (color annotTrack) (shape annotTrack))))
          | None \<Rightarrow>
              Inr (finishAnnot chrName i px startPx stopPx
                     (annot2(''trackIndex'' \<mapsto> JNum 0)) color0 shape0)))"

text \<open>The loop over the rows of one group; \<open>acc\<close> is \<^verbatim>\<open>annots[m].annots\<close>.\<close>

fun processRows ::
  "'m jsenv \<Rightarrow> ('m \<Rightarrow> jsval \<Rightarrow> real) \<Rightarrow> ('m, 'cb) ideo \<Rightarrow> 'm \<Rightarrow> string \<Rightarrow> nat \<Rightarrow>
   string list \<Rightarrow> jsval list list \<Rightarrow> jsobject list \<Rightarrow> jsval \<Rightarrow> error + (jsobject list \<times> jsval)" where
  "processRows js conv ideo chrModel chrName i ks [] acc shape0 = Inr (acc, shape0)"
| "processRows js conv ideo chrModel chrName i ks (ra # ras) acc shape0 =
     (case processAnnot js conv ideo chrModel chrName i ks ra shape0 of
        Inl e \<Rightarrow> Inl e
      | Inr (annot, shape1) \<Rightarrow>
          processRows js conv ideo chrModel chrName i ks ras (acc @ [annot]) shape1)"

text \<open>The text passed to \<^verbatim>\<open>console.warn\<close>.\<close>

definition warnUndefinedChr :: "rawGroup \<Rightarrow> string" where
  "warnUndefinedChr g =
     ''Chromosome '' @ [CHR 0x22] @ chr g @ [CHR 0x22] @ '' undefined in ideogram; '' @
     natToString (length (annots g)) @ '' annotations not shown''"

text \<open>
  The loop over the groups. The state is the group index \<open>i\<close>, the result
  list, the variable \<^verbatim>\<open>shape\<close> and the console. The result is what the
  function returns, or the exception it throws, together with the console.
  Indexing \<^verbatim>\<open>ideo.chromosomes[taxid]\<close> throws when there is no table for the
  taxid.
\<close>

fun processGroups ::
  "'m jsenv \<Rightarrow> ('m \<Rightarrow> jsval \<Rightarrow> real) \<Rightarrow> ('m, 'cb) ideo \<Rightarrow> string list \<Rightarrow> nat \<Rightarrow>
   rawGroup list \<Rightarrow> annotGroup list \<Rightarrow> jsval \<Rightarrow> string list \<Rightarrow>
   (error + annotGroup list) \<times> string list" where
  "processGroups js conv ideo ks i [] out shape0 console = (Inr out, console)"
| "processGroups js conv ideo ks i (g # gs) out shape0 console =
     (case chromosomes ideo (taxid (config ideo)) of
        None \<Rightarrow> (Inl TypeError, console)
      | Some table \<Rightarrow>
          (case lookupChr js table (chr g) of
             None \<Rightarrow>
               processGroups js conv ideo ks (Suc i) gs out shape0
                 (console @ [warnUndefinedChr g])
           | Some chrModel \<Rightarrow>
               (case processRows js conv ideo chrModel (chr g) i ks (annots g) [] shape0 of
                  Inl e \<Rightarrow> (Inl e, console)
                | Inr (as, shape1) \<Rightarrow>
                    processGroups js conv ideo ks (Suc i) gs
                      (out @ [\<lparr>chr = chr g, annots = as\<rparr>]) shape1 console)))"

definition processAnnotData ::
  "'m jsenv \<Rightarrow> ('m \<Rightarrow> jsval \<Rightarrow> real) \<Rightarrow> ('m, 'cb) ideo \<Rightarrow> rawAnnotSet \<Rightarrow>
   (error + annotGroup list) \<times> string list" where
  "processAnnotData js conv ideo raw =
     processGroups js conv ideo (keys raw) 0 (rawGroups raw) [] JUndefined []"

section \<open>initAnnotSettings\<close>

text \<open>
  Truthiness of the values the enablement test reads: a string is truthy unless
  empty, an array or object always, \<^verbatim>\<open>undefined\<close> never; a number is truthy
  unless it is zero.
\<close>

definition truthyStr :: "string option \<Rightarrow> bool" where
  "truthyStr v = (case v of None \<Rightarrow> False | Some s \<Rightarrow> s \<noteq> [])"

definition truthyObj :: "'a option \<Rightarrow> bool" where
  "truthyObj v = (v \<noteq> None)"

definition truthyNum :: "real option \<Rightarrow> bool" where
  "truthyNum v = (case v of None \<Rightarrow> False | Some r \<Rightarrow> r \<noteq> 0)"

text \<open>The condition of the outer \<^verbatim>\<open>if\<close>.\<close>

definition annotsEnabled :: "('m, 'cb) ideo \<Rightarrow> bool" where
  "annotsEnabled ideo =
     (truthyStr (annotationsPath (config ideo)) \<or>
      truthyStr (localAnnotationsPath (config ideo)) \<or>
      truthyObj (ideoAnnots ideo) \<or> truthyObj (annotations (config ideo)))"

text \<open>
  The branch taken when annotations are enabled. \<^verbatim>\<open>config.chrHeight\<close> is a
  number; after the first step \<^verbatim>\<open>annotationHeight\<close> is one too.
\<close>

definition initEnabled :: "'cb config \<Rightarrow> 'cb config" where
  "initEnabled c =
     (let c1 = (if \<not> truthyNum (annotationHeight c)
                then c\<lparr>annotationHeight := Some (of_int (Math_round (chrHeight c / 100)))\<rparr>
                else c);
          c2 = (case annotationTracks c1 of
                  Some tracks \<Rightarrow> c1\<lparr>numAnnotTracks := Some (length tracks)\<rparr>
                | None \<Rightarrow> c1\<lparr>numAnnotTracks := Some 1\<rparr>);
          c3 = c2\<lparr>annotTracksHeight :=
                  (case (annotationHeight c2, numAnnotTracks c2) of
                     (Some h, Some n) \<Rightarrow> Some (h * of_nat n)
                   | _ \<Rightarrow> None)\<rparr>
      in (if barWidth c3 = None then c3\<lparr>barWidth := Some 3\<rparr> else c3))"

definition initAnnotSettings :: "('m, 'cb) ideo \<Rightarrow> ('m, 'cb) ideo" where
  "initAnnotSettings ideo =
     (let c = config ideo;
          c1 = (if annotsEnabled ideo then initEnabled c else c\<lparr>annotTracksHeight := Some 0\<rparr>);
          c2 = (if annotationsColor c1 = JUndefined
                then c1\<lparr>annotationsColor := JStr ''#F00''\<rparr> else c1);
          c3 = (if showAnnotTooltip c2 \<noteq> Some False
                then c2\<lparr>showAnnotTooltip := Some True\<rparr> else c2);
          ideo1 = ideo\<lparr>config := c3\<rparr>
      in (if truthyObj (onWillShowAnnotTooltip c3)
          then ideo1\<lparr>onWillShowAnnotTooltipCallback := onWillShowAnnotTooltip c3\<rparr>
          else ideo1))"

section \<open>fillAnnots\<close>

text \<open>The first loop: the names and one empty group for each chromosome.\<close>

fun initFilled ::
  "chromosome list \<Rightarrow> string list \<Rightarrow> annotGroup list \<Rightarrow> string list \<times> annotGroup list" where
  "initFilled [] chrs filledAnnots = (chrs, filledAnnots)"
| "initFilled (c # cs) chrs filledAnnots =
     initFilled cs (chrs @ [name c]) (filledAnnots @ [\<lparr>chr = name c, annots = []\<rparr>])"

text \<open>\<^verbatim>\<open>Array.prototype.indexOf\<close>: the first position, or -1.\<close>

fun indexOfFrom :: "string list \<Rightarrow> string \<Rightarrow> nat \<Rightarrow> int" where
  "indexOfFrom [] x k = - 1"
| "indexOfFrom (y # ys) x k = (if y = x then int k else indexOfFrom ys x (Suc k))"

definition indexOf :: "string list \<Rightarrow> string \<Rightarrow> int" where
  "indexOf xs x = indexOfFrom xs x 0"

text \<open>The second loop.\<close>

fun placeAnnots :: "string list \<Rightarrow> annotGroup list \<Rightarrow> annotGroup list \<Rightarrow> annotGroup list" where
  "placeAnnots chrs [] filledAnnots = filledAnnots"
| "placeAnnots chrs (annot # rest) filledAnnots =
     (let chrIndex = indexOf chrs (chr annot)
      in placeAnnots chrs rest
           (if chrIndex \<noteq> - 1 then filledAnnots[nat chrIndex := annot] else filledAnnots))"

definition fillAnnots :: "('m, 'cb) ideo \<Rightarrow> annotGroup list \<Rightarrow> annotGroup list" where
  "fillAnnots ideo as =
     (case initFilled (chromosomesArray ideo) [] [] of
        (chrs, filledAnnots) \<Rightarrow> placeAnnots chrs as filledAnnots)"

section \<open>fetchAnnots\<close>

text \<open>
  \<^verbatim>\<open>String.prototype.split\<close> at a one-character separator; \<open>cur\<close> is the
  piece being read. The result is never empty.
\<close>

fun splitFrom :: "char \<Rightarrow> string \<Rightarrow> string \<Rightarrow> string list" where
  "splitFrom sep cur [] = [cur]"
| "splitFrom sep cur (x # xs) =
     (if x = sep then cur # splitFrom sep [] xs else splitFrom sep (cur @ [x]) xs)"

definition split :: "char \<Rightarrow> string \<Rightarrow> string list" where
  "split sep s = splitFrom sep [] s"

text \<open>\<^verbatim>\<open>toUpperCase\<close>, on the ASCII letters.\<close>

definition toUpperChar :: "char \<Rightarrow> char" where
  "toUpperChar c =
     (case map_of (zip ''abcdefghijklmnopqrstuvwxyz'' ''ABCDEFGHIJKLMNOPQRSTUVWXYZ'') c of
        Some u \<Rightarrow> u
      | None \<Rightarrow> c)"

definition toUpperCase :: "string \<Rightarrow> string" where
  "toUpperCase s = map toUpperChar s"

text \<open>
  What the function does to the world outside the instance, in order: the
  alert it shows, the requests it issues and the decoders and callbacks it
  runs.
\<close>

datatype event =
  Alert string
| D3Json "string option"
| D3Text string
| BedParse string
| JsonParse string
| DeserializeAnnotsForHeatmap
| OnLoadAnnotsCallback

text \<open>
  The collaborators: the two fetchers (\<open>None\<close> when the promise is rejected),
  the two decoders (\<open>None\<close> when the decoder throws) and the heatmap
  deserializer, which may update the instance.
\<close>

record ('m, 'cb) world =
  d3_json :: "string option \<Rightarrow> rawAnnotSet option"
  d3_text :: "string \<Rightarrow> string option"
  BedParser :: "string \<Rightarrow> ('m, 'cb) ideo \<Rightarrow> rawAnnotSet option"
  JSON_parse :: "string \<Rightarrow> rawAnnotSet option"
  deserializeAnnotsForHeatmap :: "('m, 'cb) ideo \<Rightarrow> rawAnnotSet \<Rightarrow> ('m, 'cb) ideo"

definition afterRawAnnots ::
  "('m, 'cb) world \<Rightarrow> ('m, 'cb) ideo \<Rightarrow> rawAnnotSet \<Rightarrow> ('m, 'cb) ideo \<times> event list" where
  "afterRawAnnots w ideo raw =
     (let (ideo1, ev1) =
            (if heatmaps (config ideo)
             then (deserializeAnnotsForHeatmap w ideo raw, [DeserializeAnnotsForHeatmap])
             else (ideo, []))
      in (if truthyObj (onLoadAnnotsCallback ideo1)
          then (ideo1, ev1 @ [OnLoadAnnotsCallback]) else (ideo1, ev1)))"

text \<open>
  \<^verbatim>\<open>tmp = annotsUrl.split('?')[0].split('.'); extension = tmp[tmp.length - 1];\<close>
\<close>

definition extensionOf :: "string \<Rightarrow> string" where
  "extensionOf annotsUrl =
     (let tmp = split (CHR ''.'') (hd (split (CHR ''?'') annotsUrl))
      in last tmp)"

text \<open>The text passed to \<^verbatim>\<open>alert\<close>.\<close>

definition unsupportedMessage :: "string \<Rightarrow> string" where
  "unsupportedMessage extension =
     ''This Ideogram.js only supports BED and Ideogram JSON at the '' @
     ''moment.  Sorry, check back soon for '' @ extension @ '' support!''"

text \<open>
  The request and its continuation are run as one step: the instance after the
  call and the events in order. A rejected promise or a throwing decoder ends
  the continuation where it stands. The load callback is recorded as an event;
  what it does itself is not modelled.
\<close>

definition fetchAnnots ::
  "('m, 'cb) world \<Rightarrow> ('m, 'cb) ideo \<Rightarrow> string \<Rightarrow> ('m, 'cb) ideo \<times> event list" where
  "fetchAnnots w ideo annotsUrl =
     (if take 4 annotsUrl \<noteq> ''http'' then
        (case d3_json w (annotationsPath (config ideo)) of
           None \<Rightarrow> (ideo, [D3Json (annotationsPath (config ideo))])
         | Some data \<Rightarrow>
             (let (ideo1, ev) = afterRawAnnots w (ideo\<lparr>rawAnnots := Some data\<rparr>) data
              in (ideo1, D3Json (annotationsPath (config ideo)) # ev)))
      else
        (let extension = extensionOf annotsUrl
         in (if extension \<noteq> ''bed'' \<and> extension \<noteq> ''json'' then
               (ideo, [Alert (unsupportedMessage (toUpperCase extension))])
             else
               (case d3_text w annotsUrl of
                  None \<Rightarrow> (ideo, [D3Text annotsUrl])
                | Some text \<Rightarrow>
                    (if extension = ''bed'' then
                       (case BedParser w text ideo of
                          None \<Rightarrow> (ideo, [D3Text annotsUrl, BedParse text])
                        | Some raw \<Rightarrow>
                            (let (ideo1, ev) = afterRawAnnots w (ideo\<lparr>rawAnnots := Some raw\<rparr>) raw
                             in (ideo1, [D3Text annotsUrl, BedParse text] @ ev)))
                     else
                       (case JSON_parse w text of
                          None \<Rightarrow> (ideo, [D3Text annotsUrl, JsonParse text])
                        | Some raw \<Rightarrow>
                            (let (ideo1, ev) = afterRawAnnots w (ideo\<lparr>rawAnnots := Some raw\<rparr>) raw
                             in (ideo1, [D3Text annotsUrl, JsonParse text] @ ev))))))))"

section \<open>Notions used in the statements\<close>

text \<open>
  \<^verbatim>\<open>ideo.chromosomes[ideo.config.taxid][chr]\<close> as a partial lookup: \<open>None\<close>
  when the chromosome name does not resolve.
\<close>

definition chrModelOf :: "'m jsenv \<Rightarrow> ('m, 'cb) ideo \<Rightarrow> string \<Rightarrow> 'm option" where
  "chrModelOf js ideo c =
     (case chromosomes ideo (taxid (config ideo)) of
        None \<Rightarrow> None
      | Some table \<Rightarrow> lookupChr js table c)"

text \<open>
  The raw groups whose name resolves, each with its index in the raw set, in
  the order of the raw set.
\<close>

definition resolvableGroups ::
  "'m jsenv \<Rightarrow> ('m, 'cb) ideo \<Rightarrow> rawAnnotSet \<Rightarrow> (nat \<times> rawGroup) list" where
  "resolvableGroups js ideo raw =
     filter (\<lambda>(j, g). chrModelOf js ideo (chr g) \<noteq> None)
       (zip [0..<length (rawGroups raw)] (rawGroups raw))"

text \<open>
  The names every plain object inherits, and an environment for the examples:
  its arithmetic meets exact results only.
\<close>

definition objectPrototypeNames :: "string list" where
  "objectPrototypeNames =
     [''constructor'', ''hasOwnProperty'', ''isPrototypeOf'', ''propertyIsEnumerable'',
      ''toLocaleString'', ''toString'', ''valueOf'', ''__proto__'', ''__defineGetter__'',
      ''__defineSetter__'', ''__lookupGetter__'', ''__lookupSetter__'']"

definition sampleJs :: "unit jsenv" where
  "sampleJs =
     \<lparr>numStr = (\<lambda>r. ''0''),
      roundDouble = (\<lambda>x. JNum x),
      objectInherits = (\<lambda>n. if n \<in> set objectPrototypeNames then Some () else None),
      arrayInherits = (\<lambda>n. n = ''length'')\<rparr>"

text \<open>All annotation objects of a run, in order; none when the run throws.\<close>

definition resolvedAnnots :: "(error + annotGroup list) \<times> string list \<Rightarrow> jsobject list" where
  "resolvedAnnots r = (case fst r of Inl e \<Rightarrow> [] | Inr out \<Rightarrow> concat (map annots out))"

text \<open>
  Two coordinate mappers: the identity on base pairs, and a linear scale of
  \<open>f\<close> base pairs to the pixel.
\<close>

definition identityMapper :: "'m \<Rightarrow> jsval \<Rightarrow> real" where
  "identityMapper chrModel bp = (case bp of JNum r \<Rightarrow> r | _ \<Rightarrow> 0)"


text \<open>
  A diagram of human chromosomes 1 and 2 with nothing configured for
  annotations, and payloads for it.
\<close>

definition plainConfig :: "unit config" where
  "plainConfig =
     \<lparr>taxid = 9606, annotationsPath = None, localAnnotationsPath = None,
      annotations = None, annotationHeight = None, chrHeight = 400,
      annotationTracks = None, numAnnotTracks = None, annotTracksHeight = None,
      barWidth = None, annotationsColor = JUndefined, showAnnotTooltip = None,
      onWillShowAnnotTooltip = None, heatmaps = False\<rparr>"

definition plainIdeo :: "(unit, unit) ideo" where
  "plainIdeo =
     \<lparr>config = plainConfig,
      chromosomes = [9606 \<mapsto> [''1'' \<mapsto> (), ''2'' \<mapsto> ()]],
      chromosomesArray = [\<lparr>name = ''1''\<rparr>, \<lparr>name = ''2''\<rparr>],
      ideoAnnots = None, rawAnnots = None, onLoadAnnotsCallback = None,
      onWillShowAnnotTooltipCallback = None\<rparr>"

definition geneRaw :: "string \<Rightarrow> real \<Rightarrow> real \<Rightarrow> rawAnnotSet" where
  "geneRaw c start len =
     \<lparr>keys = [''name'', ''start'', ''length''],
      rawGroups = [\<lparr>chr = c, annots = [[JStr ''BRCA1'', JNum start, JNum len]]\<rparr>]\<rparr>"

text \<open>
  The annotation object that the gene of \<open>geneRaw\<close> becomes on chromosome
  \<open>c\<close>, in group \<open>i\<close>, with no colour configured.
\<close>

definition resolvedGene ::
  "string \<Rightarrow> nat \<Rightarrow> real \<Rightarrow> real \<Rightarrow> jsval \<Rightarrow> jsval \<Rightarrow> real \<Rightarrow> real \<Rightarrow> jsobject" where
  "resolvedGene c i start len stop px startPx stopPx =
     [''name'' \<mapsto> JStr ''BRCA1'', ''start'' \<mapsto> JNum start, ''length'' \<mapsto> JNum len,
      ''stop'' \<mapsto> stop, ''trackIndex'' \<mapsto> JNum 0,
      ''chr'' \<mapsto> JStr c, ''chrIndex'' \<mapsto> JNum (of_nat i),
      ''px'' \<mapsto> px, ''startPx'' \<mapsto> JNum startPx, ''stopPx'' \<mapsto> JNum stopPx,
      ''color'' \<mapsto> JUndefined, ''shape'' \<mapsto> JUndefined]"

text \<open>An annotation object, a diagram whose two chromosomes share a name.\<close>

definition sampleAnnot :: jsobject where
  "sampleAnnot = [''name'' \<mapsto> JStr ''BRCA1'']"

definition sameNameIdeo :: "(unit, unit) ideo" where
  "sameNameIdeo = plainIdeo\<lparr>chromosomesArray := [\<lparr>name = ''1''\<rparr>, \<lparr>name = ''1''\<rparr>]\<rparr>"

text \<open>The field map of a row: the tuple's values under the names of \<open>keys\<close>.\<close>

definition fieldMap :: "string list \<Rightarrow> jsval list \<Rightarrow> jsobject" where
  "fieldMap ks ra = assignKeys ks 0 ra Map.empty"

text \<open>
  A diagram with one green, round track and red as the default colour, and a
  payload whose gene brings its own colour and shape.
\<close>

definition trackIdeo :: "(unit, unit) ideo" where
  "trackIdeo =
     plainIdeo\<lparr>config := plainConfig
       \<lparr>annotationTracks := Some [\<lparr>color = JStr ''#0F0'', shape = JStr ''circle''\<rparr>],
        annotationsColor := JStr ''#F00''\<rparr>\<rparr>"

definition styledRaw :: rawAnnotSet where
  "styledRaw =
     \<lparr>keys = [''name'', ''start'', ''length'', ''trackIndex'', ''color'', ''shape''],
      rawGroups = [\<lparr>chr = ''1'', annots =
        [[JStr ''BRCA1'', JNum 1000, JNum 200, JNum 0, JStr ''#00F'', JStr ''triangle'']]\<rparr>]\<rparr>"

text \<open>A payload whose first group names a chromosome the diagram does not have.\<close>

definition mixedRaw :: rawAnnotSet where
  "mixedRaw =
     \<lparr>keys = [''name'', ''start'', ''length''],
      rawGroups = [\<lparr>chr = ''99'', annots = [[JStr ''TP53'', JNum 5, JNum 7]]\<rparr>,
                   \<lparr>chr = ''1'', annots = [[JStr ''BRCA1'', JNum 1000, JNum 200]]\<rparr>]\<rparr>"

text \<open>
  A diagram configured with an annotations path, and collaborators that answer
  every request.
\<close>

definition pathIdeo :: "(unit, unit) ideo" where
  "pathIdeo = plainIdeo\<lparr>config := plainConfig\<lparr>annotationsPath := Some ''annots.bed''\<rparr>\<rparr>"

definition sampleWorld :: "(unit, unit) world" where
  "sampleWorld =
     \<lparr>d3_json = (\<lambda>path. Some (geneRaw ''1'' 1000 200)),
      d3_text = (\<lambda>url. Some ''chr1 1000 1200 BRCA1''),
      BedParser = (\<lambda>text ideo. Some (geneRaw ''1'' 1000 200)),
      JSON_parse = (\<lambda>text. None),
      deserializeAnnotsForHeatmap = (\<lambda>ideo raw. ideo)\<rparr>"

section \<open>The loops of processAnnotData\<close>

text \<open>
  Whatever every successful run of the loop body establishes between a row and
  its annotation holds, row by row, between the rows of a group and the
  group's annotations.
\<close>

lemma processRows_rel:
  assumes step: "\<And>ra s a s'. processAnnot js conv ideo m c i ks ra s = Inr (a, s') \<Longrightarrow> R ra a"
  shows "processRows js conv ideo m c i ks rows acc s = Inr (as, s') \<Longrightarrow>
         \<exists>new. as = acc @ new \<and> list_all2 R rows new"
proof (induction rows arbitrary: acc s)
  case Nil
  then show ?case by simp
next
  case (Cons ra ras)
  from Cons.prems obtain a s1 where
    a: "processAnnot js conv ideo m c i ks ra s = Inr (a, s1)" and
    rest: "processRows js conv ideo m c i ks ras (acc @ [a]) s1 = Inr (as, s')"
    by (auto split: sum.splits prod.splits)
  from Cons.IH [OF rest] obtain new where
    new: "as = (acc @ [a]) @ new" "list_all2 R ras new" by blast
  from step [OF a] new have "as = acc @ (a # new) \<and> list_all2 R (ra # ras) (a # new)"
    by simp
  then show ?case by blast
qed

text \<open>
  It then holds, group by group and in order, between the resolvable raw groups
  (each with its index in the raw set) and the groups of the result.
\<close>

lemma processGroups_rel:
  assumes step: "\<And>m c i ra s a s'. processAnnot js conv ideo m c i ks ra s = Inr (a, s') \<Longrightarrow> R c i ra a"
  shows "processGroups js conv ideo ks i gs out s con = (Inr out', con') \<Longrightarrow>
         \<exists>new. out' = out @ new \<and>
           list_all2 (\<lambda>(j, g) og. chr og = chr g \<and> list_all2 (R (chr g) j) (annots g) (annots og))
             (filter (\<lambda>(j, g). chrModelOf js ideo (chr g) \<noteq> None) (zip [i..<i + length gs] gs)) new"
proof (induction gs arbitrary: i out s con)
  case Nil
  then show ?case by simp
next
  case (Cons g gs)
  from Cons.prems obtain table where
    table: "chromosomes ideo (taxid (config ideo)) = Some table"
    by (auto split: option.splits)
  have "[i..<i + Suc (length gs)] = i # [Suc i..<i + Suc (length gs)]"
    by (rule upt_conv_Cons) simp
  then have upt: "[i..<i + length (g # gs)] = i # [Suc i..<Suc i + length gs]"
    by simp
  show ?case
  proof (cases "lookupChr js table (chr g)")
    case None
    with table Cons.prems have
      "processGroups js conv ideo ks (Suc i) gs out s (con @ [warnUndefinedChr g]) = (Inr out', con')"
      by simp
    from Cons.IH [OF this] None table show ?thesis
      unfolding upt by (simp add: chrModelOf_def)
  next
    case (Some m)
    with table Cons.prems obtain as s1 where
      rows: "processRows js conv ideo m (chr g) i ks (annots g) [] s = Inr (as, s1)" and
      rest: "processGroups js conv ideo ks (Suc i) gs (out @ [\<lparr>chr = chr g, annots = as\<rparr>]) s1 con = (Inr out', con')"
      by (auto split: sum.splits prod.splits)
    from processRows_rel [where R = "R (chr g) i", OF step rows]
    have as: "list_all2 (R (chr g) i) (annots g) as" by simp
    from Cons.IH [OF rest] obtain new where
      new: "out' = (out @ [\<lparr>chr = chr g, annots = as\<rparr>]) @ new"
        "list_all2 (\<lambda>(j, g) og. chr og = chr g \<and> list_all2 (R (chr g) j) (annots g) (annots og))
             (filter (\<lambda>(j, g). chrModelOf js ideo (chr g) \<noteq> None) (zip [Suc i..<Suc i + length gs] gs)) new"
      by blast
    have "out' = out @ (\<lparr>chr = chr g, annots = as\<rparr> # new)" using new(1) by simp
    moreover have "list_all2 (\<lambda>(j, g) og. chr og = chr g \<and> list_all2 (R (chr g) j) (annots g) (annots og))
             (filter (\<lambda>(j, g). chrModelOf js ideo (chr g) \<noteq> None) (zip [i..<i + length (g # gs)] (g # gs)))
             (\<lparr>chr = chr g, annots = as\<rparr> # new)"
      unfolding upt using new(2) as Some table by (simp add: chrModelOf_def)
    ultimately show ?thesis by blast
  qed
qed

text \<open>The console of a run that returns: one warning for each unresolved group.\<close>

lemma processGroups_console:
  "processGroups js conv ideo ks i gs out s con = (Inr out', con') \<Longrightarrow>
   con' = con @ map warnUndefinedChr (filter (\<lambda>g. chrModelOf js ideo (chr g) = None) gs)"
proof (induction gs arbitrary: i out s con)
  case Nil
  then show ?case by simp
next
  case (Cons g gs)
  from Cons.prems obtain table where
    table: "chromosomes ideo (taxid (config ideo)) = Some table"
    by (auto split: option.splits)
  show ?case
  proof (cases "lookupChr js table (chr g)")
    case None
    with table Cons.prems have
      "processGroups js conv ideo ks (Suc i) gs out s (con @ [warnUndefinedChr g]) = (Inr out', con')"
      by simp
    from Cons.IH [OF this] None table show ?thesis
      by (simp add: chrModelOf_def)
  next
    case (Some m)
    with table Cons.prems obtain as s1 where
      "processGroups js conv ideo ks (Suc i) gs (out @ [\<lparr>chr = chr g, annots = as\<rparr>]) s1 con = (Inr out', con')"
      by (auto split: sum.splits prod.splits)
    from Cons.IH [OF this] Some table show ?thesis
      by (simp add: chrModelOf_def)
  qed
qed


text \<open>The fields the loop body leaves in an annotation.\<close>

lemma processAnnot_fields:
  assumes "processAnnot js conv ideo m c i ks ra s = Inr (a, s')"
  shows "a ''stop'' = Some (js_add js (getProp a ''start'') (getProp a ''length''))"
    and "a ''startPx'' = Some (JNum (conv m (getProp a ''start'')))"
    and "a ''stopPx'' = Some (JNum (conv m (getProp a ''stop'')))"
    and "a ''px'' = Some (js_round (js_half js (num_add js
           (JNum (conv m (getProp a ''start''))) (JNum (conv m (getProp a ''stop''))))))"
    and "a ''chr'' = Some (JStr c)"
    and "a ''chrIndex'' = Some (JNum (of_nat i))"
  using assms
  by (auto simp: processAnnot_def finishAnnot_def getProp_def Let_def
           split: option.splits)


text \<open>The run on a payload of one gene on chromosome 1, for any mapper.\<close>

lemma geneRaw_run:
  assumes "c = ''1'' \<or> c = ''2''"
  shows "processAnnotData js conv plainIdeo (geneRaw c start len) =
     (Inr [\<lparr>chr = c, annots =
        [resolvedGene c 0 start len (toDouble js (start + len))
           (js_round (js_half js (num_add js (JNum (conv () (JNum start)))
              (JNum (conv () (toDouble js (start + len)))))))
           (conv () (JNum start)) (conv () (toDouble js (start + len)))]\<rparr>], [])"
  using assms
  by (auto simp add: processAnnotData_def plainIdeo_def plainConfig_def geneRaw_def processAnnot_def
        lookupChr_def finishAnnot_def js_index_def getProp_def js_add_def js_in_def Let_def
        resolvedGene_def)

text \<open>The arithmetic of the examples is exact.\<close>

lemma toDouble_exact:
  "toDouble js 1200 = JNum 1200" "toDouble js 2200 = JNum 2200" "toDouble js 1100 = JNum 1100"
  "toDouble js 1536 = JNum 1536" "toDouble js (5 / 8) = JNum (5 / 8)"
  "toDouble js (5 / 16) = JNum (5 / 16)"
  by (simp_all add: toDouble_def)

section \<open>Claims about processAnnotData\<close>




text \<open>
  The groups of a result are, in order, the resolvable raw groups: each has the
  name and as many annotations as its raw group has rows, and its annotations
  carry that name and the raw group's index.
\<close>

lemma processAnnotData_paired:
  assumes run: "processAnnotData js conv ideo raw = (Inr out, con)"
  shows "list_all2 (\<lambda>(j, g) og. chr og = chr g \<and> length (annots og) = length (annots g) \<and>
            (\<forall>a\<in>set (annots og). a ''chr'' = Some (JStr (chr g)) \<and>
                                    a ''chrIndex'' = Some (JNum (of_nat j))))
           (resolvableGroups js ideo raw) out"
proof -
  let ?R = "\<lambda>c i (ra :: jsval list) (a :: jsobject).
              a ''chr'' = Some (JStr c) \<and> a ''chrIndex'' = Some (JNum (of_nat i))"
  from run have "\<exists>new. out = [] @ new \<and>
      list_all2 (\<lambda>(j, g) og. chr og = chr g \<and> list_all2 (?R (chr g) j) (annots g) (annots og))
        (filter (\<lambda>(j, g). chrModelOf js ideo (chr g) \<noteq> None)
           (zip [0..<0 + length (rawGroups raw)] (rawGroups raw))) new"
    unfolding processAnnotData_def
  proof (rule processGroups_rel [rotated])
    fix m c i ra s a s'
    assume "processAnnot js conv ideo m c i (keys raw) ra s = Inr (a, s')"
    from processAnnot_fields(5,6) [OF this] show "?R c i ra a" by simp
  qed
  then have "list_all2 (\<lambda>(j, g) og. chr og = chr g \<and> list_all2 (?R (chr g) j) (annots g) (annots og))
      (resolvableGroups js ideo raw) out"
    by (simp add: resolvableGroups_def)
  then show ?thesis
    unfolding list_all2_conv_all_nth [of _ "resolvableGroups js ideo raw" out]
    by (auto simp: list_all2_conv_all_nth in_set_conv_nth split: prod.splits)
qed

section \<open>The loops of fillAnnots\<close>

lemma initFilled_eq:
  "initFilled cs chrs filled =
     (chrs @ map name cs, filled @ map (\<lambda>c. \<lparr>chr = name c, annots = []\<rparr>) cs)"
  by (induction cs arbitrary: chrs filled) simp_all

text \<open>\<open>indexOf\<close> returns -1 for an absent element and a position of the element otherwise.\<close>

lemma indexOfFrom_cases:
  "indexOfFrom xs x k = - 1 \<and> x \<notin> set xs \<or>
   (\<exists>j<length xs. indexOfFrom xs x k = int (k + j) \<and> xs ! j = x)"
proof (induction xs arbitrary: k)
  case Nil
  then show ?case by simp
next
  case (Cons y ys)
  show ?case
  proof (cases "y = x")
    case True
    then show ?thesis by auto
  next
    case False
    from Cons.IH [of "Suc k"] show ?thesis
    proof
      assume "indexOfFrom ys x (Suc k) = - 1 \<and> x \<notin> set ys"
      with False show ?thesis by simp
    next
      assume "\<exists>j<length ys. indexOfFrom ys x (Suc k) = int (Suc k + j) \<and> ys ! j = x"
      then obtain j where "j < length ys" "indexOfFrom ys x (Suc k) = int (Suc k + j)" "ys ! j = x"
        by blast
      with False have "Suc j < length (y # ys) \<and> indexOfFrom (y # ys) x k = int (k + Suc j) \<and> (y # ys) ! Suc j = x"
        by simp
      then show ?thesis by blast
    qed
  qed
qed

lemma indexOf_found:
  assumes "indexOf xs x \<noteq> - 1"
  shows "nat (indexOf xs x) < length xs \<and> xs ! nat (indexOf xs x) = x"
  using indexOfFrom_cases [of xs x 0] assms unfolding indexOf_def by auto

lemma indexOfFrom_first:
  "x \<notin> set xs \<Longrightarrow> indexOfFrom (xs @ x # ys) x k = int (k + length xs)"
  by (induction xs arbitrary: k) auto

text \<open>The second loop keeps the length and the names, and touches only matched positions.\<close>

lemma placeAnnots_length: "length (placeAnnots chrs as filled) = length filled"
  by (induction as arbitrary: filled) (simp_all add: Let_def)

lemma placeAnnots_chr:
  "map chr filled = chrs \<Longrightarrow> map chr (placeAnnots chrs as filled) = chrs"
proof (induction as arbitrary: filled)
  case Nil
  then show ?case by simp
next
  case (Cons e as)
  show ?case
  proof (cases "indexOf chrs (chr e) = - 1")
    case True
    with Cons show ?thesis by simp
  next
    case False
    from indexOf_found [OF False] Cons.prems
    have "map chr (filled[nat (indexOf chrs (chr e)) := e]) = chrs"
      by (simp add: map_update list_update_same_conv)
    from Cons.IH [OF this] False show ?thesis by simp
  qed
qed

lemma placeAnnots_untouched:
  "chrs ! i \<notin> chr ` set as \<Longrightarrow> placeAnnots chrs as filled ! i = filled ! i"
proof (induction as arbitrary: filled)
  case Nil
  then show ?case by simp
next
  case (Cons e as)
  from Cons.prems have ne: "chrs ! i \<noteq> chr e" and rest: "chrs ! i \<notin> chr ` set as"
    by auto
  show ?case
  proof (cases "indexOf chrs (chr e) = - 1")
    case True
    with Cons.IH [OF rest] show ?thesis by simp
  next
    case False
    from indexOf_found [OF False] ne have "nat (indexOf chrs (chr e)) \<noteq> i" by auto
    with Cons.IH [OF rest, of "filled[nat (indexOf chrs (chr e)) := e]"] False
    show ?thesis by simp
  qed
qed

lemma placeAnnots_set:
  "e \<in> set (placeAnnots chrs as filled) \<Longrightarrow> e \<in> set filled \<or> e \<in> set as"
proof (induction as arbitrary: filled)
  case Nil
  then show ?case by simp
next
  case (Cons x as)
  from Cons.IH [OF Cons.prems [simplified placeAnnots.simps Let_def]]
  show ?case
    using set_update_subset_insert [of filled "nat (indexOf chrs (chr x))" x]
    by (auto split: if_splits)
qed

lemma fillAnnots_set:
  "e \<in> set (fillAnnots ideo as) \<Longrightarrow> e \<in> set as \<or> annots e = []"
  using placeAnnots_set [of e "map name (chromosomesArray ideo)" as
          "map (\<lambda>c. \<lparr>chr = name c, annots = []\<rparr>) (chromosomesArray ideo)"]
  by (auto simp: fillAnnots_def initFilled_eq)

text \<open>
  On an input that lists distinct names in canonical order, each entry lands on
  its own position.
\<close>

lemma placeAnnots_reconciled:
  "distinct chrs \<Longrightarrow> map chr (pre @ rest) = chrs \<Longrightarrow> length ph = length rest \<Longrightarrow>
   placeAnnots chrs rest (pre @ ph) = pre @ rest"
proof (induction rest arbitrary: pre ph)
  case Nil
  then show ?case by simp
next
  case (Cons e rest)
  from Cons.prems(3) obtain p ph' where ph: "ph = p # ph'" "length ph' = length rest"
    by (cases ph) auto
  from Cons.prems(1,2) have notin: "chr e \<notin> set (map chr pre)" by auto
  from Cons.prems(2) have chrs: "chrs = map chr pre @ chr e # map chr rest" by auto
  have idx: "indexOf chrs (chr e) = int (length pre)"
    unfolding indexOf_def chrs using indexOfFrom_first [OF notin, of "map chr rest" 0] by simp
  have upd: "(pre @ ph)[length pre := e] = (pre @ [e]) @ ph'"
    unfolding ph by simp
  from Cons.prems(2) have "map chr ((pre @ [e]) @ rest) = chrs" by simp
  from Cons.IH [OF Cons.prems(1) this ph(2)] idx upd show ?case by simp
qed

section \<open>Claims about fillAnnots\<close>

text \<open>
  Claim C3, as amended. Every annotation in the structure that \<open>fillAnnots\<close>
  returns for the output of \<open>processAnnotData\<close> lies in an entry that is a
  group of that output, unchanged: the \<open>m\<close>-th group, which comes from the
  \<open>m\<close>-th resolvable raw group. The annotation's \<open>chrIndex\<close> is the 0-based
  position \<open>j\<close> of that very raw group in the raw set's group order, as
  \<open>processAnnotData\<close> assigned it; \<open>fillAnnots\<close> moves groups and leaves the
  field as it is.
\<close>

theorem fillAnnots_keeps_raw_chrIndex:
  assumes "processAnnotData js conv ideo raw = (Inr out, con)"
    and "e \<in> set (fillAnnots ideo out)" and "a \<in> set (annots e)"
  shows "\<exists>m j g. m < length out \<and> out ! m = e \<and> resolvableGroups js ideo raw ! m = (j, g) \<and>
           j < length (rawGroups raw) \<and> rawGroups raw ! j = g \<and> chr g = chr e \<and>
           length (annots g) = length (annots e) \<and>
           a ''chr'' = Some (JStr (chr e)) \<and> a ''chrIndex'' = Some (JNum (of_nat j))"
proof -
  let ?rs = "resolvableGroups js ideo raw"
  from fillAnnots_set [OF assms(2)] assms(3) have "e \<in> set out" by auto
  then obtain m where m: "m < length out" "out ! m = e"
    by (auto simp: in_set_conv_nth)
  note all = processAnnotData_paired [OF assms(1)]
  from all have len: "length ?rs = length out" by (rule list_all2_lengthD)
  obtain j g where jg: "?rs ! m = (j, g)" by (cases "?rs ! m")
  from list_all2_nthD2 [OF all m(1)] m(2) jg assms(3)
  have rel: "chr e = chr g" "length (annots e) = length (annots g)"
    "a ''chr'' = Some (JStr (chr g))" "a ''chrIndex'' = Some (JNum (of_nat j))"
    by auto
  from m(1) len jg have "(j, g) \<in> set ?rs" by (metis nth_mem)
  then have "(j, g) \<in> set (zip [0..<length (rawGroups raw)] (rawGroups raw))"
    by (simp add: resolvableGroups_def)
  then have pos: "j < length (rawGroups raw)" "rawGroups raw ! j = g"
    by (auto simp: set_zip)
  from m jg pos rel show ?thesis by auto
qed

theorem fillAnnots_keeps_raw_chrIndex_witness:
  "\<exists>out e a. processAnnotData sampleJs identityMapper plainIdeo (geneRaw ''2'' 1000 200) = (Inr out, []) \<and>
     fillAnnots plainIdeo out = [\<lparr>chr = ''1'', annots = []\<rparr>, e] \<and> annots e = [a] \<and>
     out ! 0 = e \<and>
     resolvableGroups sampleJs plainIdeo (geneRaw ''2'' 1000 200) ! 0
       = (0, \<lparr>chr = ''2'', annots = [[JStr ''BRCA1'', JNum 1000, JNum 200]]\<rparr>) \<and>
     a ''chr'' = Some (JStr ''2'') \<and> a ''chrIndex'' = Some (JNum 0)"
proof -
  let ?a = "resolvedGene ''2'' 0 1000 200 (JNum 1200) (JNum 1100) 1000 1200"
  let ?e = "\<lparr>chr = ''2'', annots = [?a]\<rparr>"
  have run: "processAnnotData sampleJs identityMapper plainIdeo (geneRaw ''2'' 1000 200) = (Inr [?e], [])"
    by (simp add: geneRaw_run identityMapper_def toDouble_exact)
  have fill: "fillAnnots plainIdeo [?e] = [\<lparr>chr = ''1'', annots = []\<rparr>, ?e]"
    by (simp add: fillAnnots_def indexOf_def plainIdeo_def)
  have rs: "resolvableGroups sampleJs plainIdeo (geneRaw ''2'' 1000 200) ! 0
       = (0, \<lparr>chr = ''2'', annots = [[JStr ''BRCA1'', JNum 1000, JNum 200]]\<rparr>)"
    by (simp add: resolvableGroups_def chrModelOf_def lookupChr_def plainIdeo_def plainConfig_def
          geneRaw_def)
  have "?e \<in> set (fillAnnots plainIdeo [?e])" "?a \<in> set (annots ?e)"
    by (simp_all add: fill)
  from fillAnnots_keeps_raw_chrIndex [OF run this] run fill rs show ?thesis
    by (simp add: resolvedGene_def)
qed

text \<open>
  C3 as first stated fails: a payload whose only group is chromosome 2, on a
  diagram of chromosomes 1 and 2, gives an annotation with \<open>chrIndex\<close> 0 on
  the chromosome at canonical position 1.
\<close>

theorem fillAnnots_chrIndex_counterexample:
  "map (\<lambda>e. (chr e, map (\<lambda>a. a ''chrIndex'') (annots e)))
     (fillAnnots plainIdeo
        (projr (fst (processAnnotData sampleJs identityMapper plainIdeo (geneRaw ''2'' 1000 200)))))
   = [(''1'', []), (''2'', [Some (JNum 0)])] \<and>
   indexOf (map name (chromosomesArray plainIdeo)) ''2'' = 1"
proof -
  have run: "processAnnotData sampleJs identityMapper plainIdeo (geneRaw ''2'' 1000 200) =
      (Inr [\<lparr>chr = ''2'', annots =
         [resolvedGene ''2'' 0 1000 200 (JNum 1200) (JNum 1100) 1000 1200]\<rparr>], [])"
    by (simp add: geneRaw_run identityMapper_def toDouble_exact)
  show ?thesis
    unfolding run by (simp add: fillAnnots_def indexOf_def resolvedGene_def plainIdeo_def)
qed

text \<open>
  Claim C5. For every input, the list that \<open>fillAnnots\<close> returns has one
  entry for each canonical chromosome, named in canonical order; a chromosome
  that no input entry names keeps its empty placeholder, and an input entry
  with a name outside the canonical list is not in the result.
\<close>

theorem fillAnnots_length:
  "length (fillAnnots ideo as) = length (chromosomesArray ideo) \<and>
   map chr (fillAnnots ideo as) = map name (chromosomesArray ideo) \<and>
   (\<forall>i<length (chromosomesArray ideo).
      name (chromosomesArray ideo ! i) \<notin> chr ` set as \<longrightarrow>
      fillAnnots ideo as ! i = \<lparr>chr = name (chromosomesArray ideo ! i), annots = []\<rparr>) \<and>
   (\<forall>e\<in>set as. chr e \<notin> name ` set (chromosomesArray ideo) \<longrightarrow> e \<notin> set (fillAnnots ideo as))"
proof -
  let ?cs = "chromosomesArray ideo"
  let ?ph = "map (\<lambda>c. \<lparr>chr = name c, annots = []\<rparr>) ?cs"
  have fill: "fillAnnots ideo as = placeAnnots (map name ?cs) as ?ph"
    by (simp add: fillAnnots_def initFilled_eq)
  have ph: "map chr ?ph = map name ?cs" by simp
  have len: "length (fillAnnots ideo as) = length ?cs"
    unfolding fill by (simp add: placeAnnots_length)
  have chrs: "map chr (fillAnnots ideo as) = map name ?cs"
    unfolding fill by (rule placeAnnots_chr [OF ph])
  have untouched: "fillAnnots ideo as ! i = \<lparr>chr = name (?cs ! i), annots = []\<rparr>"
    if "i < length ?cs" "name (?cs ! i) \<notin> chr ` set as" for i
  proof -
    from that have "map name ?cs ! i \<notin> chr ` set as" by simp
    from placeAnnots_untouched [OF this, of ?ph] that(1) show ?thesis
      unfolding fill by simp
  qed
  have dropped: "e \<notin> set (fillAnnots ideo as)" if "chr e \<notin> name ` set ?cs" for e
  proof
    assume "e \<in> set (fillAnnots ideo as)"
    then have "chr e \<in> set (map chr (fillAnnots ideo as))" by simp
    with chrs that show False by simp
  qed
  from len chrs untouched dropped show ?thesis by blast
qed

theorem fillAnnots_length_witness:
  "length (fillAnnots plainIdeo
     [\<lparr>chr = ''2'', annots = [sampleAnnot]\<rparr>, \<lparr>chr = ''X'', annots = []\<rparr>]) = 2 \<and>
   (0::nat) < length (chromosomesArray plainIdeo) \<and>
   name (chromosomesArray plainIdeo ! 0) \<notin>
     chr ` set [\<lparr>chr = ''2'', annots = [sampleAnnot]\<rparr>, \<lparr>chr = ''X'', annots = []\<rparr>] \<and>
   fillAnnots plainIdeo [\<lparr>chr = ''2'', annots = [sampleAnnot]\<rparr>, \<lparr>chr = ''X'', annots = []\<rparr>] ! 0
     = \<lparr>chr = ''1'', annots = []\<rparr> \<and>
   chr \<lparr>chr = ''X'', annots = ([] :: jsobject list)\<rparr> \<notin> name ` set (chromosomesArray plainIdeo) \<and>
   \<lparr>chr = ''X'', annots = []\<rparr> \<notin>
     set (fillAnnots plainIdeo [\<lparr>chr = ''2'', annots = [sampleAnnot]\<rparr>, \<lparr>chr = ''X'', annots = []\<rparr>])"
  using fillAnnots_length [of plainIdeo
     "[\<lparr>chr = ''2'', annots = [sampleAnnot]\<rparr>, \<lparr>chr = ''X'', annots = []\<rparr>]"]
  by (simp add: plainIdeo_def)

text \<open>
  Claim C6, as amended. When the canonical chromosome names are pairwise
  distinct, \<open>fillAnnots\<close> returns unchanged a structure that has one entry
  for each canonical chromosome, in canonical order.
\<close>

theorem fillAnnots_idempotent:
  assumes "distinct (map name (chromosomesArray ideo))"
    and "map chr as = map name (chromosomesArray ideo)"
  shows "fillAnnots ideo as = as"
proof -
  let ?cs = "chromosomesArray ideo"
  let ?ph = "map (\<lambda>c. \<lparr>chr = name c, annots = []\<rparr>) ?cs"
  from assms(2) have "length as = length ?cs" by (metis length_map)
  then have len: "length ?ph = length as" by simp
  from assms(2) have "map chr ([] @ as) = map name ?cs" by simp
  from placeAnnots_reconciled [OF assms(1) this len]
  show ?thesis by (simp add: fillAnnots_def initFilled_eq)
qed

theorem fillAnnots_idempotent_witness:
  "distinct (map name (chromosomesArray plainIdeo)) \<and>
   map chr [\<lparr>chr = ''1'', annots = [sampleAnnot]\<rparr>, \<lparr>chr = ''2'', annots = []\<rparr>]
     = map name (chromosomesArray plainIdeo) \<and>
   fillAnnots plainIdeo [\<lparr>chr = ''1'', annots = [sampleAnnot]\<rparr>, \<lparr>chr = ''2'', annots = []\<rparr>]
     = [\<lparr>chr = ''1'', annots = [sampleAnnot]\<rparr>, \<lparr>chr = ''2'', annots = []\<rparr>]"
proof -
  have h: "distinct (map name (chromosomesArray plainIdeo))"
    "map chr [\<lparr>chr = ''1'', annots = [sampleAnnot]\<rparr>, \<lparr>chr = ''2'', annots = []\<rparr>]
       = map name (chromosomesArray plainIdeo)"
    by (simp_all add: plainIdeo_def)
  from fillAnnots_idempotent [OF h] h show ?thesis by simp
qed

text \<open>
  C6 as first stated fails when two canonical chromosomes share a name:
  \<open>indexOf\<close> sends both entries to the first position, and the annotation
  of the first entry is lost. The input is itself a result of \<open>fillAnnots\<close>.
\<close>

theorem fillAnnots_idempotent_counterexample:
  "fillAnnots sameNameIdeo [\<lparr>chr = ''1'', annots = [sampleAnnot]\<rparr>]
     = [\<lparr>chr = ''1'', annots = [sampleAnnot]\<rparr>, \<lparr>chr = ''1'', annots = []\<rparr>] \<and>
   map chr [\<lparr>chr = ''1'', annots = [sampleAnnot]\<rparr>, \<lparr>chr = ''1'', annots = []\<rparr>]
     = map name (chromosomesArray sameNameIdeo) \<and>
   fillAnnots sameNameIdeo [\<lparr>chr = ''1'', annots = [sampleAnnot]\<rparr>, \<lparr>chr = ''1'', annots = []\<rparr>]
     = [\<lparr>chr = ''1'', annots = []\<rparr>, \<lparr>chr = ''1'', annots = []\<rparr>] \<and>
   fillAnnots sameNameIdeo [\<lparr>chr = ''1'', annots = [sampleAnnot]\<rparr>, \<lparr>chr = ''1'', annots = []\<rparr>]
     \<noteq> [\<lparr>chr = ''1'', annots = [sampleAnnot]\<rparr>, \<lparr>chr = ''1'', annots = []\<rparr>]"
  by (simp add: fillAnnots_def indexOf_def sameNameIdeo_def plainIdeo_def)

section \<open>Colour and shape of an annotation\<close>

text \<open>The loop over \<open>keys\<close> defines every name of \<open>keys\<close>, from its last column.\<close>

lemma assignKeys_in:
  "js_in key (assignKeys ks k ra annot) \<longleftrightarrow> key \<in> set ks \<or> js_in key annot"
  by (induction ks arbitrary: k annot) (auto simp: js_in_def)

lemma assignKeys_other:
  "key \<notin> set ks \<Longrightarrow> assignKeys ks k ra annot key = annot key"
  by (induction ks arbitrary: k annot) auto

lemma assignKeys_column:
  "j < length ks \<Longrightarrow> ks ! j = key \<Longrightarrow> key \<notin> set (drop (Suc j) ks) \<Longrightarrow>
   assignKeys ks k ra annot key = Some (js_index ra (k + j))"
proof (induction ks arbitrary: j k annot)
  case Nil
  then show ?case by simp
next
  case (Cons x ks)
  show ?case
  proof (cases j)
    case 0
    with Cons.prems have "x = key" "key \<notin> set ks"
      by simp_all
    with 0 show ?thesis by (simp add: assignKeys_other)
  next
    case (Suc j')
    with Cons.prems have "j' < length ks" "ks ! j' = key" "key \<notin> set (drop (Suc j') ks)"
      by simp_all
    from Cons.IH [OF this]
    have "assignKeys ks (Suc k) ra (annot(x \<mapsto> js_index ra k)) key = Some (js_index ra (Suc k + j'))" .
    with Suc show ?thesis by simp
  qed
qed

lemma fieldMap_column:
  "j < length ks \<Longrightarrow> ks ! j = key \<Longrightarrow> key \<notin> set (drop (Suc j) ks) \<Longrightarrow>
   js_in key (fieldMap ks ra) \<and> getProp (fieldMap ks ra) key = js_index ra j"
  using assignKeys_column [of j ks key 0 ra Map.empty]
  by (simp add: fieldMap_def js_in_def getProp_def)

text \<open>A colour or shape in the field map of a row is what the loop body resolves.\<close>

lemma processAnnot_explicit:
  assumes "processAnnot js conv ideo m c i ks ra s = Inr (a, s')"
  shows "(js_in ''color'' (fieldMap ks ra) \<longrightarrow> a ''color'' = Some (getProp (fieldMap ks ra) ''color'')) \<and>
         (js_in ''shape'' (fieldMap ks ra) \<longrightarrow> a ''shape'' = Some (getProp (fieldMap ks ra) ''shape''))"
  using assms
  by (auto simp: processAnnot_def finishAnnot_def getProp_def js_in_def fieldMap_def Let_def
           split: option.splits)

text \<open>
  The groups of a result, paired in order with the resolvable raw groups, and
  their annotations with the rows.
\<close>

lemma filter_zip_snd:
  "length is = length gs \<Longrightarrow>
   map snd (filter (\<lambda>(j, g). P g) (zip is gs)) = filter P gs"
proof -
  assume "length is = length gs"
  then have "map snd (zip is gs) = gs" by simp
  then have "filter P gs = filter P (map snd (zip is gs))" by simp
  also have "\<dots> = map snd (filter (P \<circ> snd) (zip is gs))" by (simp only: filter_map)
  also have "P \<circ> snd = (\<lambda>(j, g). P g)" by auto
  finally show ?thesis by simp
qed

lemma processAnnotData_rows:
  assumes step: "\<And>m c i ra s a s'. processAnnot js conv ideo m c i (keys raw) ra s = Inr (a, s') \<Longrightarrow> R ra a"
    and run: "processAnnotData js conv ideo raw = (Inr out, con)"
  shows "list_all2 (\<lambda>g og. chr og = chr g \<and> list_all2 R (annots g) (annots og))
           (filter (\<lambda>g. chrModelOf js ideo (chr g) \<noteq> None) (rawGroups raw)) out"
proof -
  let ?P = "\<lambda>g. chrModelOf js ideo (chr g) \<noteq> None"
  let ?zs = "filter (\<lambda>(j, g). ?P g) (zip [0..<0 + length (rawGroups raw)] (rawGroups raw))"
  from run have "\<exists>new. out = [] @ new \<and>
      list_all2 (\<lambda>(j, g) og. chr og = chr g \<and> list_all2 R (annots g) (annots og)) ?zs new"
    unfolding processAnnotData_def by (rule processGroups_rel [rotated]) (rule step)
  then have "list_all2 (\<lambda>(j, g) og. chr og = chr g \<and> list_all2 R (annots g) (annots og)) ?zs out"
    by simp
  then have "list_all2 (\<lambda>g og. chr og = chr g \<and> list_all2 R (annots g) (annots og)) (map snd ?zs) out"
    by (simp add: list_all2_map1 case_prod_unfold)
  moreover have "map snd ?zs = filter ?P (rawGroups raw)"
    by (rule filter_zip_snd) simp
  ultimately show ?thesis by simp
qed

text \<open>
  Claim C4. In every result of \<open>processAnnotData\<close>, an annotation whose row
  holds an explicit \<open>color\<close> (or \<open>shape\<close>) field has that field's value as
  its colour (shape), whatever the track configuration and the default colour
  are.
\<close>

theorem processAnnotData_explicit_color_shape:
  assumes "processAnnotData js conv ideo raw = (Inr out, con)"
  shows "list_all2 (\<lambda>g og. list_all2 (\<lambda>ra a.
            (js_in ''color'' (fieldMap (keys raw) ra) \<longrightarrow>
               a ''color'' = Some (getProp (fieldMap (keys raw) ra) ''color'')) \<and>
            (js_in ''shape'' (fieldMap (keys raw) ra) \<longrightarrow>
               a ''shape'' = Some (getProp (fieldMap (keys raw) ra) ''shape'')))
          (annots g) (annots og))
        (filter (\<lambda>g. chrModelOf js ideo (chr g) \<noteq> None) (rawGroups raw)) out"
proof -
  let ?R = "\<lambda>ra a.
    (js_in ''color'' (fieldMap (keys raw) ra) \<longrightarrow>
       a ''color'' = Some (getProp (fieldMap (keys raw) ra) ''color'')) \<and>
    (js_in ''shape'' (fieldMap (keys raw) ra) \<longrightarrow>
       a ''shape'' = Some (getProp (fieldMap (keys raw) ra) ''shape''))"
  have "list_all2 (\<lambda>g og. chr og = chr g \<and> list_all2 ?R (annots g) (annots og))
          (filter (\<lambda>g. chrModelOf js ideo (chr g) \<noteq> None) (rawGroups raw)) out"
  proof (rule processAnnotData_rows [OF _ assms])
    fix m c i ra s a s'
    assume "processAnnot js conv ideo m c i (keys raw) ra s = Inr (a, s')"
    then show "?R ra a" by (rule processAnnot_explicit)
  qed
  then show ?thesis by (rule list_all2_mono) blast
qed

theorem processAnnotData_explicit_color_shape_witness:
  "(\<exists>out. processAnnotData sampleJs identityMapper trackIdeo styledRaw = (Inr out, []) \<and>
      list_all2 (\<lambda>g og. list_all2 (\<lambda>ra a.
            (js_in ''color'' (fieldMap (keys styledRaw) ra) \<longrightarrow>
               a ''color'' = Some (getProp (fieldMap (keys styledRaw) ra) ''color'')) \<and>
            (js_in ''shape'' (fieldMap (keys styledRaw) ra) \<longrightarrow>
               a ''shape'' = Some (getProp (fieldMap (keys styledRaw) ra) ''shape'')))
          (annots g) (annots og))
        (filter (\<lambda>g. chrModelOf sampleJs trackIdeo (chr g) \<noteq> None) (rawGroups styledRaw)) out) \<and>
   map (\<lambda>ra. (fieldMap (keys styledRaw) ra ''color'', fieldMap (keys styledRaw) ra ''shape''))
     (concat (map annots (rawGroups styledRaw)))
     = [(Some (JStr ''#00F''), Some (JStr ''triangle''))] \<and>
   map (\<lambda>t. (color t, shape t)) (the (annotationTracks (config trackIdeo)))
     = [(JStr ''#0F0'', JStr ''circle'')] \<and>
   annotationsColor (config trackIdeo) = JStr ''#F00'' \<and>
   map (\<lambda>a. (a ''color'', a ''shape''))
     (resolvedAnnots (processAnnotData sampleJs identityMapper trackIdeo styledRaw))
     = [(Some (JStr ''#00F''), Some (JStr ''triangle''))]"
proof -
  let ?r = "processAnnotData sampleJs identityMapper trackIdeo styledRaw"
  have "\<exists>out. ?r = (Inr out, [])"
    by (simp add: processAnnotData_def trackIdeo_def plainIdeo_def plainConfig_def styledRaw_def
          processAnnot_def lookupChr_def finishAnnot_def trackAt_def js_index_def getProp_def Let_def)
  then obtain out where run: "?r = (Inr out, [])" by blast
  have vals: "map (\<lambda>a. (a ''color'', a ''shape'')) (resolvedAnnots ?r)
      = [(Some (JStr ''#00F''), Some (JStr ''triangle''))]"
    by (simp add: processAnnotData_def trackIdeo_def plainIdeo_def plainConfig_def styledRaw_def
          processAnnot_def lookupChr_def finishAnnot_def trackAt_def js_index_def getProp_def js_in_def Let_def
          resolvedAnnots_def)
  have raw: "map (\<lambda>ra. (fieldMap (keys styledRaw) ra ''color'', fieldMap (keys styledRaw) ra ''shape''))
     (concat (map annots (rawGroups styledRaw)))
     = [(Some (JStr ''#00F''), Some (JStr ''triangle''))]"
    by (simp add: styledRaw_def fieldMap_def js_index_def)
  have cfg: "map (\<lambda>t. (color t, shape t)) (the (annotationTracks (config trackIdeo)))
     = [(JStr ''#0F0'', JStr ''circle'')]" "annotationsColor (config trackIdeo) = JStr ''#F00''"
    by (simp_all add: trackIdeo_def plainIdeo_def plainConfig_def)
  from processAnnotData_explicit_color_shape [OF run] run vals raw cfg show ?thesis
    by blast
qed

section \<open>Unresolved chromosomes\<close>

lemma list_all2_map_eq:
  "list_all2 (\<lambda>x y. f x = g y) xs ys \<Longrightarrow> map f xs = map g ys"
  by (induction rule: list_all2_induct) simp_all

text \<open>
  Claim C7, as amended. When there is a chromosome table for the taxid and
  the loop of \<open>processAnnotData\<close> is at a group whose name is neither a key of
  that table nor a name the table object inherits, it adds exactly one warning
  (naming the chromosome and the number of its annotations) to the console,
  adds nothing to the result, does not throw, and goes on with the remaining
  groups. On every run that returns, the console holds one such warning for
  each unresolved group and the result holds the resolvable groups only.
\<close>

theorem processGroups_unknown_chr:
  assumes "chromosomes ideo (taxid (config ideo)) = Some table" and "table (chr g) = None"
    and "objectInherits js (chr g) = None"
  shows "processGroups js conv ideo ks i (g # gs) out s con =
           processGroups js conv ideo ks (Suc i) gs out s (con @ [warnUndefinedChr g]) \<and>
         (\<forall>raw out' con'. processAnnotData js conv ideo raw = (Inr out', con') \<longrightarrow>
            con' = map warnUndefinedChr
                     (filter (\<lambda>h. chrModelOf js ideo (chr h) = None) (rawGroups raw)) \<and>
            map chr out' = map chr (filter (\<lambda>h. chrModelOf js ideo (chr h) \<noteq> None) (rawGroups raw)) \<and>
            chr g \<notin> chr ` set out')"
proof -
  have step: "processGroups js conv ideo ks i (g # gs) out s con =
           processGroups js conv ideo ks (Suc i) gs out s (con @ [warnUndefinedChr g])"
    using assms by (simp add: lookupChr_def)
  have whole: "con' = map warnUndefinedChr
                     (filter (\<lambda>h. chrModelOf js ideo (chr h) = None) (rawGroups raw)) \<and>
            map chr out' = map chr (filter (\<lambda>h. chrModelOf js ideo (chr h) \<noteq> None) (rawGroups raw)) \<and>
            chr g \<notin> chr ` set out'"
    if run: "processAnnotData js conv ideo raw = (Inr out', con')" for raw out' con'
  proof -
    from run have con: "con' = map warnUndefinedChr
        (filter (\<lambda>h. chrModelOf js ideo (chr h) = None) (rawGroups raw))"
      unfolding processAnnotData_def by (auto dest: processGroups_console)
    have "list_all2 (\<lambda>h og. chr og = chr h \<and> list_all2 (\<lambda>ra a. True) (annots h) (annots og))
           (filter (\<lambda>h. chrModelOf js ideo (chr h) \<noteq> None) (rawGroups raw)) out'"
      by (rule processAnnotData_rows [OF _ run]) simp
    then have "list_all2 (\<lambda>h og. chr h = chr og)
           (filter (\<lambda>h. chrModelOf js ideo (chr h) \<noteq> None) (rawGroups raw)) out'"
      by (rule list_all2_mono) simp
    then have chrs: "map chr out' = map chr (filter (\<lambda>h. chrModelOf js ideo (chr h) \<noteq> None) (rawGroups raw))"
      by (rule list_all2_map_eq [symmetric])
    from assms have "chrModelOf js ideo (chr g) = None"
      by (simp add: chrModelOf_def lookupChr_def)
    then have "chr g \<notin> set (map chr (filter (\<lambda>h. chrModelOf js ideo (chr h) \<noteq> None) (rawGroups raw)))"
      by auto
    then have "chr g \<notin> set (map chr out')" unfolding chrs .
    then have notin: "chr g \<notin> chr ` set out'" by simp
    from con chrs notin show ?thesis by blast
  qed
  from step whole show ?thesis by blast
qed

theorem processGroups_unknown_chr_witness:
  "chromosomes plainIdeo (taxid (config plainIdeo)) = Some [''1'' \<mapsto> (), ''2'' \<mapsto> ()] \<and>
   [''1'' \<mapsto> (), ''2'' \<mapsto> ()] (chr (hd (rawGroups mixedRaw))) = None \<and>
   objectInherits sampleJs (chr (hd (rawGroups mixedRaw))) = None \<and>
   snd (processAnnotData sampleJs identityMapper plainIdeo mixedRaw) =
     [''Chromosome '' @ [CHR 0x22] @ ''99'' @ [CHR 0x22] @
      '' undefined in ideogram; 1 annotations not shown''] \<and>
   map chr (projr (fst (processAnnotData sampleJs identityMapper plainIdeo mixedRaw))) = [''1''] \<and>
   map (\<lambda>a. a ''name'') (resolvedAnnots (processAnnotData sampleJs identityMapper plainIdeo mixedRaw))
     = [Some (JStr ''BRCA1'')]"
proof -
  let ?r = "processAnnotData sampleJs identityMapper plainIdeo mixedRaw"
  let ?t = "[''1'' \<mapsto> (), ''2'' \<mapsto> ()] :: string \<rightharpoonup> unit"
  have h: "chromosomes plainIdeo (taxid (config plainIdeo)) = Some ?t"
    "?t (chr (hd (rawGroups mixedRaw))) = None"
    "objectInherits sampleJs (chr (hd (rawGroups mixedRaw))) = None"
    by (simp_all add: plainIdeo_def plainConfig_def mixedRaw_def sampleJs_def
          objectPrototypeNames_def)
  have "\<exists>out con. ?r = (Inr out, con)"
    by (simp add: processAnnotData_def plainIdeo_def plainConfig_def mixedRaw_def
          processAnnot_def lookupChr_def sampleJs_def objectPrototypeNames_def finishAnnot_def Let_def)
  then obtain out con where run: "?r = (Inr out, con)" by blast
  have unres: "filter (\<lambda>h. chrModelOf sampleJs plainIdeo (chr h) = None) (rawGroups mixedRaw)
      = [\<lparr>chr = ''99'', annots = [[JStr ''TP53'', JNum 5, JNum 7]]\<rparr>]"
    and res: "map chr (filter (\<lambda>h. chrModelOf sampleJs plainIdeo (chr h) \<noteq> None) (rawGroups mixedRaw)) = [''1'']"
    by (simp_all add: chrModelOf_def lookupChr_def plainIdeo_def plainConfig_def mixedRaw_def
          sampleJs_def objectPrototypeNames_def)
  have msg: "warnUndefinedChr \<lparr>chr = ''99'', annots = [[JStr ''TP53'', JNum 5, JNum 7]]\<rparr> =
      ''Chromosome '' @ [CHR 0x22] @ ''99'' @ [CHR 0x22] @
      '' undefined in ideogram; 1 annotations not shown''"
    by (simp add: warnUndefinedChr_def natToString.simps)
  from processGroups_unknown_chr [OF h, where conv = identityMapper] run
  have "con = map warnUndefinedChr (filter (\<lambda>h. chrModelOf sampleJs plainIdeo (chr h) = None) (rawGroups mixedRaw))"
    "map chr out = map chr (filter (\<lambda>h. chrModelOf sampleJs plainIdeo (chr h) \<noteq> None) (rawGroups mixedRaw))"
    by blast+
  then have con: "snd ?r = [''Chromosome '' @ [CHR 0x22] @ ''99'' @ [CHR 0x22] @
      '' undefined in ideogram; 1 annotations not shown'']"
    and out: "map chr (projr (fst ?r)) = [''1'']"
    unfolding run unres res by (simp_all only: msg list.map snd_conv fst_conv sum.sel)
  have names: "map (\<lambda>a. a ''name'') (resolvedAnnots ?r) = [Some (JStr ''BRCA1'')]"
    by (simp add: processAnnotData_def plainIdeo_def plainConfig_def mixedRaw_def
          processAnnot_def lookupChr_def sampleJs_def objectPrototypeNames_def finishAnnot_def js_index_def Let_def resolvedAnnots_def)
  from h con out names show ?thesis by blast
qed

text \<open>
  C7 as first stated fails in two ways. A name that is no key of the table but
  that the table object inherits, such as \<^verbatim>\<open>constructor\<close>, resolves: no warning
  is issued and the group is in the result. And when there is no table for the
  taxid, reading the name throws.
\<close>

theorem processGroups_unknown_chr_counterexample:
  "chromosomes plainIdeo (taxid (config plainIdeo)) = Some [''1'' \<mapsto> (), ''2'' \<mapsto> ()] \<and>
   [''1'' \<mapsto> (), ''2'' \<mapsto> ()] ''constructor'' = None \<and>
   snd (processAnnotData sampleJs identityMapper plainIdeo (geneRaw ''constructor'' 1000 200)) = [] \<and>
   map chr (projr (fst (processAnnotData sampleJs identityMapper plainIdeo
                          (geneRaw ''constructor'' 1000 200)))) = [''constructor''] \<and>
   map (\<lambda>a. a ''name'')
     (resolvedAnnots (processAnnotData sampleJs identityMapper plainIdeo
                        (geneRaw ''constructor'' 1000 200))) = [Some (JStr ''BRCA1'')] \<and>
   fst (processAnnotData sampleJs identityMapper (plainIdeo\<lparr>chromosomes := Map.empty\<rparr>)
          (geneRaw ''99'' 1000 200)) = Inl TypeError"
  by (simp add: processAnnotData_def plainIdeo_def plainConfig_def geneRaw_def processAnnot_def
        lookupChr_def sampleJs_def objectPrototypeNames_def finishAnnot_def js_index_def Let_def
        resolvedAnnots_def)

section \<open>The scenario of one gene\<close>

text \<open>\<open>initAnnotSettings\<close> leaves the chromosome table and the tracks alone.\<close>

lemma initAnnotSettings_keeps:
  "chromosomes (initAnnotSettings ideo) = chromosomes ideo"
  "taxid (config (initAnnotSettings ideo)) = taxid (config ideo)"
  "annotationTracks (config (initAnnotSettings ideo)) = annotationTracks (config ideo)"
  "annotationsColor (config (initAnnotSettings ideo)) =
     (if annotationsColor (config ideo) = JUndefined then JStr ''#F00''
      else annotationsColor (config ideo))"
  by (simp_all add: initAnnotSettings_def initEnabled_def Let_def split: option.splits)

text \<open>
  Claim C8. For the payload of the gene BRCA1 at 1000 with length 200 on
  chromosome 1, on a diagram where chromosome 1 resolves, with no track
  configuration, the default-initialized colour and the identity as coordinate
  mapper, \<open>processAnnotData\<close> returns exactly one annotation, with start 1000,
  stop 1200, startPx 1000, stopPx 1200, px 1100, trackIndex 0 and colour #F00.
\<close>

theorem processAnnotData_scenario:
  assumes "chrModelOf js ideo ''1'' = Some m" and "annotationTracks (config ideo) = None"
    and "annotationsColor (config ideo) = JUndefined"
  shows "\<exists>a. processAnnotData js identityMapper (initAnnotSettings ideo) (geneRaw ''1'' 1000 200)
             = (Inr [\<lparr>chr = ''1'', annots = [a]\<rparr>], []) \<and>
           a ''start'' = Some (JNum 1000) \<and> a ''stop'' = Some (JNum 1200) \<and>
           a ''startPx'' = Some (JNum 1000) \<and> a ''stopPx'' = Some (JNum 1200) \<and>
           a ''px'' = Some (JNum 1100) \<and> a ''trackIndex'' = Some (JNum 0) \<and>
           a ''color'' = Some (JStr ''#F00'')"
proof -
  from assms(1) obtain table where
    t: "chromosomes ideo (taxid (config ideo)) = Some table" "lookupChr js table ''1'' = Some m"
    by (auto simp: chrModelOf_def split: option.splits)
  show ?thesis
    using t assms(2,3)
    by (simp add: processAnnotData_def geneRaw_def initAnnotSettings_keeps processAnnot_def
          finishAnnot_def js_index_def getProp_def js_add_def js_in_def identityMapper_def
          toDouble_exact Let_def)
qed

theorem processAnnotData_scenario_witness:
  "chrModelOf sampleJs plainIdeo ''1'' = Some () \<and> annotationTracks (config plainIdeo) = None \<and>
   annotationsColor (config plainIdeo) = JUndefined \<and>
   map (\<lambda>a. map a [''start'', ''stop'', ''startPx'', ''stopPx'', ''px'', ''trackIndex'', ''color''])
     (resolvedAnnots
        (processAnnotData sampleJs identityMapper (initAnnotSettings plainIdeo) (geneRaw ''1'' 1000 200)))
   = [[Some (JNum 1000), Some (JNum 1200), Some (JNum 1000), Some (JNum 1200), Some (JNum 1100),
       Some (JNum 0), Some (JStr ''#F00'')]]"
proof -
  have h: "chrModelOf sampleJs plainIdeo ''1'' = Some ()" "annotationTracks (config plainIdeo) = None"
    "annotationsColor (config plainIdeo) = JUndefined"
    by (simp_all add: chrModelOf_def lookupChr_def plainIdeo_def plainConfig_def)
  from processAnnotData_scenario [OF h] h show ?thesis
    by (auto simp: resolvedAnnots_def)
qed

section \<open>Claims about initAnnotSettings\<close>



section \<open>Claims about fetchAnnots\<close>

text \<open>
  Claim C2, as amended. For every URL that starts with \<open>http\<close> and whose
  extension, taken before any query string, is neither \<open>bed\<close> nor \<open>json\<close>,
  \<open>fetchAnnots\<close> shows an alert that names the extension in upper case, leaves
  the instance (and so \<open>rawAnnots\<close>) unchanged, and issues no request and
  runs no decoder.
\<close>

theorem fetchAnnots_unsupported:
  assumes "take 4 annotsUrl = ''http''"
    and "extensionOf annotsUrl \<noteq> ''bed''" and "extensionOf annotsUrl \<noteq> ''json''"
  shows "fetchAnnots w ideo annotsUrl =
           (ideo, [Alert (unsupportedMessage (toUpperCase (extensionOf annotsUrl)))])"
  using assms by (simp add: fetchAnnots_def Let_def)

theorem fetchAnnots_unsupported_witness:
  "take 4 ''http://example.org/data.xyz?v=2.json'' = ''http'' \<and>
   extensionOf ''http://example.org/data.xyz?v=2.json'' = ''xyz'' \<and>
   fetchAnnots sampleWorld pathIdeo ''http://example.org/data.xyz?v=2.json'' =
     (pathIdeo, [Alert (''This Ideogram.js only supports BED and Ideogram JSON at the '' @
                        ''moment.  Sorry, check back soon for XYZ support!'')])"
proof -
  have ext: "extensionOf ''http://example.org/data.xyz?v=2.json'' = ''xyz''"
    by (simp add: extensionOf_def split_def)
  have h: "take 4 ''http://example.org/data.xyz?v=2.json'' = ''http''"
    "extensionOf ''http://example.org/data.xyz?v=2.json'' \<noteq> ''bed''"
    "extensionOf ''http://example.org/data.xyz?v=2.json'' \<noteq> ''json''"
    by (simp_all add: ext)
  have up: "toUpperCase ''xyz'' = ''XYZ''"
    by (simp add: toUpperCase_def toUpperChar_def)
  from fetchAnnots_unsupported [OF h, of sampleWorld pathIdeo] h(1) ext show ?thesis
    by (simp add: up unsupportedMessage_def)
qed

text \<open>
  C2 as first stated fails for a URL that does not start with \<open>http\<close>: for
  \<open>data.xyz\<close> there is no alert; the configured annotations path is fetched
  as JSON and the data is stored.
\<close>

theorem fetchAnnots_unsupported_counterexample:
  "extensionOf ''data.xyz'' = ''xyz'' \<and> rawAnnots pathIdeo = None \<and>
   snd (fetchAnnots sampleWorld pathIdeo ''data.xyz'') = [D3Json (Some ''annots.bed'')] \<and>
   rawAnnots (fst (fetchAnnots sampleWorld pathIdeo ''data.xyz'')) = Some (geneRaw ''1'' 1000 200)"
  by (simp add: extensionOf_def split_def fetchAnnots_def afterRawAnnots_def sampleWorld_def pathIdeo_def
        plainIdeo_def plainConfig_def truthyObj_def)

text \<open>
  Claim C10. For every URL whose first four characters are not \<open>http\<close>,
  \<open>fetchAnnots\<close> does not look at the URL: the result is that of any other
  such URL; it requests the configured \<open>annotationsPath\<close> as JSON, whatever the
  path's extension, shows no alert and runs neither text decoder, and stores
  the data it receives.
\<close>

theorem fetchAnnots_relative_url:
  assumes "take 4 annotsUrl \<noteq> ''http''"
  shows "fetchAnnots w ideo annotsUrl = fetchAnnots w ideo [] \<and>
         hd (snd (fetchAnnots w ideo annotsUrl)) = D3Json (annotationsPath (config ideo)) \<and>
         set (snd (fetchAnnots w ideo annotsUrl)) \<subseteq>
           {D3Json (annotationsPath (config ideo)), DeserializeAnnotsForHeatmap, OnLoadAnnotsCallback} \<and>
         (\<forall>data. d3_json w (annotationsPath (config ideo)) = Some data \<longrightarrow>
            fetchAnnots w ideo annotsUrl =
              (fst (afterRawAnnots w (ideo\<lparr>rawAnnots := Some data\<rparr>) data),
               D3Json (annotationsPath (config ideo)) #
                 snd (afterRawAnnots w (ideo\<lparr>rawAnnots := Some data\<rparr>) data)))"
  using assms
  by (auto simp: fetchAnnots_def afterRawAnnots_def Let_def split: option.splits if_splits)

theorem fetchAnnots_relative_url_witness:
  "take 4 ''data.xyz'' \<noteq> ''http'' \<and>
   fetchAnnots sampleWorld pathIdeo ''data.xyz'' = fetchAnnots sampleWorld pathIdeo [] \<and>
   d3_json sampleWorld (annotationsPath (config pathIdeo)) = Some (geneRaw ''1'' 1000 200) \<and>
   fetchAnnots sampleWorld pathIdeo ''data.xyz'' =
     (pathIdeo\<lparr>rawAnnots := Some (geneRaw ''1'' 1000 200)\<rparr>, [D3Json (Some ''annots.bed'')])"
proof -
  have h: "take 4 ''data.xyz'' \<noteq> ''http''" by simp
  have d: "d3_json sampleWorld (annotationsPath (config pathIdeo)) = Some (geneRaw ''1'' 1000 200)"
    by (simp add: sampleWorld_def)
  have after: "afterRawAnnots sampleWorld (pathIdeo\<lparr>rawAnnots := Some (geneRaw ''1'' 1000 200)\<rparr>)
       (geneRaw ''1'' 1000 200) = (pathIdeo\<lparr>rawAnnots := Some (geneRaw ''1'' 1000 200)\<rparr>, [])"
    by (simp add: afterRawAnnots_def pathIdeo_def plainIdeo_def plainConfig_def truthyObj_def)
  have path: "annotationsPath (config pathIdeo) = Some ''annots.bed''"
    by (simp add: pathIdeo_def plainIdeo_def plainConfig_def)
  from fetchAnnots_relative_url [OF h, of sampleWorld pathIdeo]
  have same: "fetchAnnots sampleWorld pathIdeo ''data.xyz'' = fetchAnnots sampleWorld pathIdeo []"
    and "\<forall>data. d3_json sampleWorld (annotationsPath (config pathIdeo)) = Some data \<longrightarrow>
            fetchAnnots sampleWorld pathIdeo ''data.xyz'' =
              (fst (afterRawAnnots sampleWorld (pathIdeo\<lparr>rawAnnots := Some data\<rparr>) data),
               D3Json (annotationsPath (config pathIdeo)) #
                 snd (afterRawAnnots sampleWorld (pathIdeo\<lparr>rawAnnots := Some data\<rparr>) data))"
    by blast+
  with d have "fetchAnnots sampleWorld pathIdeo ''data.xyz'' =
      (fst (afterRawAnnots sampleWorld (pathIdeo\<lparr>rawAnnots := Some (geneRaw ''1'' 1000 200)\<rparr>)
              (geneRaw ''1'' 1000 200)),
       D3Json (annotationsPath (config pathIdeo)) #
         snd (afterRawAnnots sampleWorld (pathIdeo\<lparr>rawAnnots := Some (geneRaw ''1'' 1000 200)\<rparr>)
                (geneRaw ''1'' 1000 200)))"
    by blast
  then have "fetchAnnots sampleWorld pathIdeo ''data.xyz'' =
     (pathIdeo\<lparr>rawAnnots := Some (geneRaw ''1'' 1000 200)\<rparr>, [D3Json (Some ''annots.bed'')])"
    by (simp only: after path fst_conv snd_conv)
  with h same d show ?thesis by blast
qed

end
